theory Spec2Isabelle
  imports Main
begin

section \<open>Data model of main.ts\<close>

text \<open>
  The interfaces \<open>MonitorConfig\<close> and \<open>MonitorState\<close> of main.ts. The interval is a number
  of milliseconds, modelled as an integer, as are the status codes and the readings of
  the clock; \<open>lastUp\<close> is \<open>boolean | null\<close>, with \<open>None\<close> for \<open>null\<close>.
\<close>

record MonitorConfig =
  label :: string
  url :: string
  emails :: "string list"
  interval :: int

record MonitorState =
  lastUp :: "bool option"

text \<open>
  The status of the specification, read off the field \<open>lastUp\<close>: \<open>null\<close> is Unknown,
  \<open>true\<close> is Up, \<open>false\<close> is Down.
\<close>

datatype status = Unknown | Up | Down

fun status_of :: "bool option \<Rightarrow> status" where
  "status_of None = Unknown"
| "status_of (Some True) = Up"
| "status_of (Some False) = Down"

section \<open>The environment of one check\<close>

text \<open>
  A thrown value is represented by its message. The promise of \<open>axios.get\<close> either
  resolves with a response, of which the code reads \<open>status\<close> (\<open>Inr\<close>), or rejects with
  an error \<open>e\<close> (\<open>Inl\<close>), of which the code reads \<open>e.response\<close> (absent, or a response
  with its \<open>status\<close>) and \<open>e.message\<close>. The promise of \<open>ses.send\<close> resolves or rejects.
\<close>

type_synonym exn = string

record axios_error =
  response :: "int option"
  message :: string

type_synonym axios_result = "axios_error + int"

type_synonym ses_result = "exn + unit"

text \<open>
  What the environment answers during one run of \<open>checkOnce\<close>: the two readings of
  \<open>Date.now()\<close>, the text of \<open>new Date().toISOString()\<close> and of
  \<open>new Date().toLocaleString('en-GB', ...)\<close>, the settled promise of \<open>axios.get\<close> and,
  when an email is sent, the settled promise of \<open>ses.send\<close>.
\<close>

record check_env =
  now_start :: int
  now_end :: int
  toISOString :: string
  toLocaleString :: string
  axios_get :: axios_result
  ses_send :: ses_result

section \<open>Effects\<close>

text \<open>The object literal passed to \<open>logLine\<close> (lines 94 to 101).\<close>

record log_entry =
  e_timestamp :: string
  e_url :: string
  e_statusCode :: "int option"
  e_error :: "string option"
  e_responseTimeMs :: int
  e_up :: bool

text \<open>The messages written to the console by \<open>sendEmail\<close> and \<open>checkOnce\<close>.\<close>

datatype console_msg =
    Sent string string
  | SESError exn
  | InitialCheck string string

text \<open>
  The observable actions of a check, in the order the code performs them: the request
  of \<open>axios.get(url, {timeout})\<close>, the call \<open>logLine(label, entry)\<close>, the call
  \<open>ses.send\<close> of a command with its addressees, subject and body, a line on
  \<open>console.log\<close> or \<open>console.error\<close>, and the assignment \<open>state.lastUp = up\<close>.
  \<open>LogLine\<close> stands for the whole of \<open>logLine\<close> (lines 56 to 62), which appends the
  serialised entry to the file of the label and reports a failed write on the console
  later, outside the check.
\<close>

datatype effect =
    AxiosGet string int
  | LogLine string log_entry
  | SesSend "string list" string string
  | ConsoleLog console_msg
  | ConsoleError console_msg
  | AssignLastUp bool

section \<open>Texts\<close>

text \<open>Decimal text of a number, as a template literal renders it; \<open>null\<close> renders as null.\<close>

fun digits :: "nat \<Rightarrow> string" where
  "digits n = (if n < 10 then [''0123456789'' ! n]
               else digits (n div 10) @ [''0123456789'' ! (n mod 10)])"

declare digits.simps [simp del]

definition number_text :: "int \<Rightarrow> string" where
  "number_text n = (if n < 0 then ''-'' @ digits (nat (- n)) else digits (nat n))"

definition nullable_text :: "int option \<Rightarrow> string" where
  "nullable_text v = (case v of None \<Rightarrow> ''null'' | Some n \<Rightarrow> number_text n)"

text \<open>\<open>a || b\<close> on a nullable string: \<open>null\<close> and the empty string are falsy.\<close>

definition or_else :: "string option \<Rightarrow> string \<Rightarrow> string" where
  "or_else a b = (case a of None \<Rightarrow> b | Some s \<Rightarrow> if s = [] then b else s)"

text \<open>\<open>Array.prototype.join\<close>.\<close>

fun join :: "string \<Rightarrow> string list \<Rightarrow> string" where
  "join sep [] = []"
| "join sep [x] = x"
| "join sep (x # y # ys) = x @ sep @ join sep (y # ys)"

section \<open>sendEmail\<close>

text \<open>
  \<open>try\<close>/\<open>catch\<close>: the handler runs on the thrown value of the body, and what the handler
  throws propagates.
\<close>

definition try_catch :: "exn + 'a \<Rightarrow> (exn \<Rightarrow> exn + 'a) \<Rightarrow> exn + 'a" where
  "try_catch body handler = (case body of Inl e \<Rightarrow> handler e | Inr v \<Rightarrow> Inr v)"

text \<open>
  \<open>sendEmail\<close> (lines 35 to 50): the command is sent; when \<open>ses.send\<close> resolves the
  sending is reported on \<open>console.log\<close>, when it rejects the \<open>catch\<close> block reports the
  error on \<open>console.error\<close>. The result is what the promise of \<open>sendEmail\<close> settles to,
  with the effects performed.
\<close>

definition sendEmail :: "ses_result \<Rightarrow> string list \<Rightarrow> string \<Rightarrow> string \<Rightarrow> exn + effect list" where
  "sendEmail sent to subject body =
     try_catch
       (case sent of
          Inl err \<Rightarrow> Inl err
        | Inr _ \<Rightarrow> Inr [SesSend to subject body, ConsoleLog (Sent subject (join '', '' to))])
       (\<lambda>err. Inr [SesSend to subject body, ConsoleError (SESError err)])"

section \<open>checkOnce\<close>

text \<open>
  Lines 66 to 82: the three variables \<open>statusCode\<close>, \<open>errorMsg\<close> and
  \<open>isConnectionError\<close> after the \<open>try\<close>/\<open>catch\<close> around \<open>axios.get\<close>.
\<close>

record outcome =
  statusCode :: "int option"
  errorMsg :: "string option"
  isConnectionError :: bool

definition probe :: "axios_result \<Rightarrow> outcome" where
  "probe r =
     (case r of
        Inr res_status \<Rightarrow>
          \<lparr>statusCode = Some res_status, errorMsg = None, isConnectionError = False\<rparr>
      | Inl e \<Rightarrow>
          (case response e of
             Some e_response_status \<Rightarrow>
               \<lparr>statusCode = Some e_response_status, errorMsg = None,
                isConnectionError = False\<rparr>
           | None \<Rightarrow>
               \<lparr>statusCode = None, errorMsg = Some (message e), isConnectionError = True\<rparr>))"

text \<open>Lines 87 to 91.\<close>

definition isDowntime :: "outcome \<Rightarrow> bool" where
  "isDowntime oc =
     (isConnectionError oc \<or> (statusCode oc \<noteq> None \<and> the (statusCode oc) \<ge> 500))"

definition up :: "outcome \<Rightarrow> bool" where
  "up oc = (\<not> isDowntime oc)"

text \<open>Lines 94 to 101: the record that is logged.\<close>

definition entry :: "check_env \<Rightarrow> MonitorConfig \<Rightarrow> outcome \<Rightarrow> log_entry" where
  "entry env cfg oc =
     \<lparr>e_timestamp = toISOString env,
      e_url = url cfg,
      e_statusCode = statusCode oc,
      e_error = errorMsg oc,
      e_responseTimeMs = now_end env - now_start env,
      e_up = up oc\<rparr>"

text \<open>The subjects and bodies of the two emails (lines 114, 115, 123 and 124).\<close>

definition alert_subject :: "check_env \<Rightarrow> MonitorConfig \<Rightarrow> string" where
  "alert_subject env cfg = ''[ALERT] '' @ label cfg @ '' went DOWN ('' @ toLocaleString env @ '')''"

definition alert_body :: "MonitorConfig \<Rightarrow> outcome \<Rightarrow> string" where
  "alert_body cfg oc =
     label cfg @ '' ('' @ url cfg @ '') is now down: ''
       @ or_else (errorMsg oc) (''status '' @ nullable_text (statusCode oc))"

definition recovery_subject :: "check_env \<Rightarrow> MonitorConfig \<Rightarrow> string" where
  "recovery_subject env cfg = ''[RECOVERY] '' @ label cfg @ '' is UP ('' @ toLocaleString env @ '')''"

definition recovery_body :: "MonitorConfig \<Rightarrow> outcome \<Rightarrow> string" where
  "recovery_body cfg oc =
     label cfg @ '' ('' @ url cfg @ '') has recovered (status ''
       @ nullable_text (statusCode oc) @ '').''"

text \<open>
  \<open>checkOnce\<close> (lines 64 to 132). The result is what its promise settles to: \<open>Inl\<close> when
  it rejects, otherwise the state object after the check and the effects in the order
  they were performed. An \<open>await\<close> of \<open>sendEmail\<close> would pass a rejection on.
\<close>

definition checkOnce ::
  "check_env \<Rightarrow> MonitorConfig \<Rightarrow> MonitorState \<Rightarrow> exn + (MonitorState \<times> effect list)" where
  "checkOnce env cfg state =
     (let oc = probe (axios_get env);
          before = [AxiosGet (url cfg) 30000, LogLine (label cfg) (entry env cfg oc)]
      in
      if lastUp state = None then
        Inr (state\<lparr>lastUp := Some (up oc)\<rparr>,
             before @ [AssignLastUp (up oc),
                       ConsoleLog (InitialCheck (label cfg) (if up oc then ''UP'' else ''DOWN''))])
      else if lastUp state = Some True \<and> \<not> up oc then
        (case sendEmail (ses_send env) (emails cfg) (alert_subject env cfg) (alert_body cfg oc) of
           Inl err \<Rightarrow> Inl err
         | Inr sending \<Rightarrow>
             Inr (state\<lparr>lastUp := Some (up oc)\<rparr>, before @ sending @ [AssignLastUp (up oc)]))
      else if lastUp state \<noteq> Some True \<and> up oc then
        (case sendEmail (ses_send env) (emails cfg) (recovery_subject env cfg)
                (recovery_body cfg oc) of
           Inl err \<Rightarrow> Inl err
         | Inr sending \<Rightarrow>
             Inr (state\<lparr>lastUp := Some (up oc)\<rparr>, before @ sending @ [AssignLastUp (up oc)]))
      else
        Inr (state\<lparr>lastUp := Some (up oc)\<rparr>, before @ [AssignLastUp (up oc)]))"

text \<open>
  The same function cut at its two \<open>await\<close>s, for the event loop below, where other
  callbacks run while a check is suspended. \<open>checkOnce_resume\<close> is the stretch from the
  settling of \<open>axios.get\<close> to the end of the function or to the \<open>await\<close> inside
  \<open>sendEmail\<close>: it reads \<open>state.lastUp\<close> and either assigns it and returns, or is
  suspended with its local \<open>up\<close>. \<open>checkOnce_finish\<close> is the assignment of line 117
  or 126, after \<open>sendEmail\<close> has returned.
\<close>

datatype resumed = Settled MonitorState | Sending bool

definition checkOnce_resume :: "axios_result \<Rightarrow> MonitorState \<Rightarrow> resumed" where
  "checkOnce_resume r state =
     (let oc = probe r in
      if lastUp state = None then Settled (state\<lparr>lastUp := Some (up oc)\<rparr>)
      else if lastUp state = Some True \<and> \<not> up oc then Sending (up oc)
      else if lastUp state \<noteq> Some True \<and> up oc then Sending (up oc)
      else Settled (state\<lparr>lastUp := Some (up oc)\<rparr>))"

definition checkOnce_finish :: "bool \<Rightarrow> MonitorState \<Rightarrow> MonitorState" where
  "checkOnce_finish up_local state = state\<lparr>lastUp := Some up_local\<rparr>"

section \<open>The transition table of the specification\<close>

text \<open>
  The table of section 4.1 of the specification, row by row, to be compared with what
  \<open>checkOnce\<close> does.
\<close>

datatype action = NoNotification | DownAlert | RecoveryNotice

fun transition :: "status \<Rightarrow> bool \<Rightarrow> status \<times> action" where
  "transition Unknown True = (Up, NoNotification)"
| "transition Unknown False = (Down, NoNotification)"
| "transition Up True = (Up, NoNotification)"
| "transition Up False = (Down, DownAlert)"
| "transition Down False = (Down, NoNotification)"
| "transition Down True = (Up, RecoveryNotice)"

text \<open>The emails of a trace, and the email that an action of the table stands for.\<close>

fun is_SesSend :: "effect \<Rightarrow> bool" where
  "is_SesSend (SesSend to subject body) = True"
| "is_SesSend _ = False"

definition emails_sent :: "effect list \<Rightarrow> effect list" where
  "emails_sent effs = filter is_SesSend effs"

definition expected_emails ::
  "check_env \<Rightarrow> MonitorConfig \<Rightarrow> outcome \<Rightarrow> action \<Rightarrow> effect list" where
  "expected_emails env cfg oc a =
     (case a of
        NoNotification \<Rightarrow> []
      | DownAlert \<Rightarrow> [SesSend (emails cfg) (alert_subject env cfg) (alert_body cfg oc)]
      | RecoveryNotice \<Rightarrow>
          [SesSend (emails cfg) (recovery_subject env cfg) (recovery_body cfg oc)])"

section \<open>buildRule\<close>

text \<open>
  Modelled from the spec: the recurrence rules of the scheduling library, whose
  declarations are not among the sources. A field of a rule is \<open>null\<close> (every value), a
  number, or a range made by \<open>new schedule.Range(start, end, step)\<close>. A fresh rule has
  second 0 and every other field \<open>null\<close>.
\<close>

datatype recur = Num int | Range int int int

record RecurrenceRule =
  year :: "recur option"
  month :: "recur option"
  date :: "recur option"
  dayOfWeek :: "recur option"
  hour :: "recur option"
  minute :: "recur option"
  second :: "recur option"

definition new_RecurrenceRule :: RecurrenceRule where
  "new_RecurrenceRule =
     \<lparr>year = None, month = None, date = None, dayOfWeek = None,
      hour = None, minute = None, second = Some (Num 0)\<rparr>"

text \<open>
  \<open>buildRule\<close> (lines 134 to 160). \<open>Math.floor\<close> of a quotient of integers is \<open>div\<close>;
  \<open>%\<close> is only reached with \<open>sec\<close> at least 60, where it is \<open>mod\<close>.
\<close>

definition buildRule :: "int \<Rightarrow> RecurrenceRule" where
  "buildRule ms =
     (let rule = new_RecurrenceRule;
          sec = ms div 1000;
          mn = sec div 60;
          hr = mn div 60
      in
      if sec < 60 then
        rule\<lparr>second := Some (Range 0 59 sec)\<rparr>
      else if sec mod 60 = 0 \<and> mn < 60 then
        rule\<lparr>second := Some (Num 0), minute := Some (Range 0 59 mn)\<rparr>
      else if mn mod 60 = 0 \<and> hr < 24 then
        rule\<lparr>second := Some (Num 0), minute := Some (Num 0), hour := Some (Range 0 23 hr)\<rparr>
      else
        rule\<lparr>second := Some (Num 0), minute := Some (Num 0), hour := Some (Num 0)\<rparr>)"

text \<open>The rule of the last branch: once per calendar day, at midnight.\<close>

definition midnight_rule :: RecurrenceRule where
  "midnight_rule =
     \<lparr>year = None, month = None, date = None, dayOfWeek = None,
      hour = Some (Num 0), minute = Some (Num 0), second = Some (Num 0)\<rparr>"

text \<open>
  Modelled from the spec: when a rule fires, which the scheduling library decides and
  the sources do not contain. A \<open>null\<close> field matches every value and a number matches
  itself; a range matches \<open>start\<close>, \<open>start + step\<close>, and so on within the range
  ("every N seconds within each minute", section 4.2). As the library has it, a step of
  0 stands for a step of 1, which matches every value from \<open>start\<close> to \<open>end\<close>, and a
  larger step stops below \<open>end\<close>. Steps are not negative for the intervals of the data
  model. A rule fires at the times of day whose hour, minute and second match; the date
  fields are \<open>null\<close> in every rule of \<open>buildRule\<close>.
\<close>

definition range_contains :: "int \<Rightarrow> int \<Rightarrow> int \<Rightarrow> int \<Rightarrow> bool" where
  "range_contains start end step v =
     (if step = 0 \<or> step = 1 then start \<le> v \<and> v \<le> end
      else start \<le> v \<and> v < end \<and> (v - start) mod step = 0)"

fun matches :: "recur option \<Rightarrow> int \<Rightarrow> bool" where
  "matches None v = True"
| "matches (Some (Num n)) v = (v = n)"
| "matches (Some (Range start end step)) v = range_contains start end step v"

definition fires :: "RecurrenceRule \<Rightarrow> int \<Rightarrow> int \<Rightarrow> int \<Rightarrow> bool" where
  "fires rule h m s = (matches (hour rule) h \<and> matches (minute rule) m \<and> matches (second rule) s)"

section \<open>main and the event loop\<close>

text \<open>
  State objects are shared by reference: the closure of a scheduled job and the map
  \<open>monitors\<close> hold references to them. The store maps a reference to the object it
  denotes; \<open>allocated\<close> counts the objects created so far, and the next object gets that
  number as its reference.

  A check that has been started and whose promise has not settled is a task. It is
  suspended either at \<open>await axios.get\<close> or, with its local \<open>up\<close>, at the \<open>await\<close>
  inside \<open>sendEmail\<close>. It keeps the \<open>cfg\<close> and the \<open>state\<close> it was called with; the
  latter is \<open>None\<close> when \<open>monitors.get\<close> returned \<open>undefined\<close>. \<open>t_target\<close> is the position of
  its target in the list of configurations.
\<close>

datatype await = Axios | Ses bool

record task =
  t_target :: nat
  t_cfg :: MonitorConfig
  t_state :: "nat option"
  t_await :: await

record system =
  configs :: "MonitorConfig list"
  store :: "nat \<Rightarrow> MonitorState"
  allocated :: nat
  monitors :: "string \<rightharpoonup> nat"
  jobs :: "(RecurrenceRule \<times> MonitorConfig \<times> nat) list"
  warmup_pending :: bool
  running :: "task list"

text \<open>
  The body of the first \<open>forEach\<close> of \<open>main\<close> (lines 173 to 184): a new state object, its
  entry in \<open>monitors\<close> under the label, and the job whose callback holds \<open>cfg\<close> and
  \<open>state\<close>.
\<close>

definition schedule_target :: "system \<Rightarrow> MonitorConfig \<Rightarrow> system" where
  "schedule_target s cfg =
     (let state = allocated s in
      s\<lparr>store := (store s)(state := \<lparr>lastUp = None\<rparr>),
        allocated := Suc state,
        monitors := (monitors s)(label cfg \<mapsto> state),
        jobs := jobs s @ [(buildRule (interval cfg), cfg, state)]\<rparr>)"

text \<open>
  \<open>main\<close> from line 170, on the configurations that were read: from the state with
  the empty map and nothing scheduled, the targets are scheduled in order and the
  warm-up timer is set. (Reading and parsing the configuration, whose failure ends the
  process before anything is scheduled, is left out.)
\<close>

definition initial :: "MonitorConfig list \<Rightarrow> system" where
  "initial cfgs =
     \<lparr>configs = cfgs, store = (\<lambda>_. \<lparr>lastUp = None\<rparr>), allocated = 0, monitors = Map.empty,
      jobs = [], warmup_pending = False, running = []\<rparr>"

definition main :: "MonitorConfig list \<Rightarrow> system" where
  "main cfgs = (foldl schedule_target (initial cfgs) cfgs)\<lparr>warmup_pending := True\<rparr>"

text \<open>
  The callback of job \<open>j\<close> (lines 179 to 181) calls \<open>checkOnce(cfg, state)\<close> with the
  values of its closure; the call runs up to \<open>await axios.get\<close> and the callback
  returns.
\<close>

definition job_callback :: "nat \<Rightarrow> system \<Rightarrow> system" where
  "job_callback j s =
     (if j < length (jobs s) then
        (case jobs s ! j of
           (rule, cfg, state) \<Rightarrow>
             s\<lparr>running := running s @
                  [\<lparr>t_target = j, t_cfg = cfg, t_state = Some state, t_await = Axios\<rparr>]\<rparr>)
      else s)"

text \<open>
  The callback of the timer (lines 187 to 192) calls \<open>checkOnce\<close> for every
  configuration in order, with the state found in \<open>monitors\<close> under its label.
\<close>

definition warmup_callback :: "system \<Rightarrow> system" where
  "warmup_callback s =
     s\<lparr>warmup_pending := False,
       running := running s @
         map (\<lambda>(j, cfg). \<lparr>t_target = j, t_cfg = cfg, t_state = monitors s (label cfg),
                           t_await = Axios\<rparr>)
             (enumerate 0 (configs s))\<rparr>"

definition remove_nth :: "nat \<Rightarrow> 'a list \<Rightarrow> 'a list" where
  "remove_nth i xs = take i xs @ drop (Suc i) xs"

text \<open>
  The promise of \<open>axios.get\<close> awaited by task \<open>i\<close> settles and the task runs on. With
  \<open>state\<close> undefined, reading \<open>state.lastUp\<close> throws and the promise of the check rejects
  (the \<open>catch\<close> of the caller prints it). Otherwise the state object is read now, and the
  task either ends with the assignment or is suspended in \<open>sendEmail\<close>.
\<close>

definition axios_settles :: "nat \<Rightarrow> axios_result \<Rightarrow> system \<Rightarrow> system" where
  "axios_settles i r s =
     (if i < length (running s) \<and> t_await (running s ! i) = Axios then
        (case t_state (running s ! i) of
           None \<Rightarrow> s\<lparr>running := remove_nth i (running s)\<rparr>
         | Some a \<Rightarrow>
             (case checkOnce_resume r (store s a) of
                Settled st \<Rightarrow>
                  s\<lparr>store := (store s)(a := st), running := remove_nth i (running s)\<rparr>
              | Sending u \<Rightarrow>
                  s\<lparr>running := (running s)[i := (running s ! i)\<lparr>t_await := Ses u\<rparr>]\<rparr>))
      else s)"

text \<open>
  The promise of \<open>ses.send\<close> awaited by task \<open>i\<close> settles, either way: \<open>sendEmail\<close>
  returns, the check assigns \<open>state.lastUp\<close> and ends.
\<close>

definition ses_settles :: "nat \<Rightarrow> ses_result \<Rightarrow> system \<Rightarrow> system" where
  "ses_settles i sent s =
     (if i < length (running s) then
        (case (t_await (running s ! i), t_state (running s ! i)) of
           (Ses u, Some a) \<Rightarrow>
             s\<lparr>store := (store s)(a := checkOnce_finish u (store s a)),
               running := remove_nth i (running s)\<rparr>
         | _ \<Rightarrow> s)
      else s)"

text \<open>The events of the loop, and a run of events from a state.\<close>

datatype event =
    JobFires nat
  | WarmupFires
  | AxiosSettles nat axios_result
  | SesSettles nat ses_result

fun step :: "event \<Rightarrow> system \<Rightarrow> system" where
  "step (JobFires j) s = job_callback j s"
| "step WarmupFires s = (if warmup_pending s then warmup_callback s else s)"
| "step (AxiosSettles i r) s = axios_settles i r s"
| "step (SesSettles i sent) s = ses_settles i sent s"

fun run :: "event list \<Rightarrow> system \<Rightarrow> system" where
  "run [] s = s"
| "run (e # es) s = run es (step e s)"

text \<open>The number of checks of target \<open>j\<close> that are in flight.\<close>

definition inflight :: "system \<Rightarrow> nat \<Rightarrow> nat" where
  "inflight s j = length (filter (\<lambda>t. t_target t = j) (running s))"

text \<open>
  A fire is due in time when no check of the targets it starts is in flight; a run is
  spaced when every fire in it is due in time.
\<close>

fun in_time :: "event \<Rightarrow> system \<Rightarrow> bool" where
  "in_time (JobFires j) s = (inflight s j = 0)"
| "in_time WarmupFires s = (\<forall>j < length (configs s). inflight s j = 0)"
| "in_time _ s = True"

fun spaced :: "event list \<Rightarrow> system \<Rightarrow> bool" where
  "spaced [] s = True"
| "spaced (e # es) s = (in_time e s \<and> spaced es (step e s))"

section \<open>Kinds of effects and example inputs\<close>

fun is_AxiosGet :: "effect \<Rightarrow> bool" where
  "is_AxiosGet (AxiosGet u t) = True"
| "is_AxiosGet _ = False"

fun is_LogLine :: "effect \<Rightarrow> bool" where
  "is_LogLine (LogLine l e) = True"
| "is_LogLine _ = False"

fun is_AssignLastUp :: "effect \<Rightarrow> bool" where
  "is_AssignLastUp (AssignLastUp b) = True"
| "is_AssignLastUp _ = False"

text \<open>
  A target and three environments: a response with status 503; a connection failure
  whose error has an empty message; a timeout followed by a rejected \<open>ses.send\<close>.
\<close>

definition cfg0 :: MonitorConfig where
  "cfg0 = \<lparr>label = ''api'', url = ''http://api.test/health'', emails = [''ops@api.test''],
           interval = 5000\<rparr>"

definition env0 :: check_env where
  "env0 = \<lparr>now_start = 1000, now_end = 1250, toISOString = ''2024-05-01T10:00:00.250Z'',
           toLocaleString = ''01/05/2024, 10:00'', axios_get = Inr 503, ses_send = Inr ()\<rparr>"

definition env1 :: check_env where
  "env1 = env0\<lparr>axios_get := Inl \<lparr>response = None, message = ''''\<rparr>\<rparr>"

definition env2 :: check_env where
  "env2 = env0\<lparr>axios_get := Inl \<lparr>response = None, message = ''timeout of 30000ms exceeded''\<rparr>,
              ses_send := Inl ''Throttling''\<rparr>"

section \<open>Tasks and their targets\<close>

text \<open>The task that an event resumes, if any.\<close>

definition resumed_task :: "event \<Rightarrow> system \<Rightarrow> task option" where
  "resumed_task e s =
     (case e of
        AxiosSettles i r \<Rightarrow> if i < length (running s) then Some (running s ! i) else None
      | SesSettles i sent \<Rightarrow> if i < length (running s) then Some (running s ! i) else None
      | _ \<Rightarrow> None)"

text \<open>
  The wiring that \<open>main\<close> sets up when the labels are distinct, and that every event
  keeps: target \<open>j\<close> is found in \<open>monitors\<close> under its label with state object \<open>j\<close>, its
  job holds its configuration and state object \<open>j\<close>, and every task holds the
  configuration and the state object of its target.
\<close>

definition wired :: "system \<Rightarrow> bool" where
  "wired s =
     (length (jobs s) = length (configs s) \<and>
      (\<forall>j < length (configs s).
         monitors s (label (configs s ! j)) = Some j \<and>
         snd (jobs s ! j) = (configs s ! j, j)) \<and>
      (\<forall>t \<in> set (running s).
         t_target t < length (configs s) \<and> t_cfg t = configs s ! t_target t \<and>
         t_state t = Some (t_target t)))"

text \<open>Two more targets: one with the label of \<open>cfg0\<close>, one with a label of its own.\<close>

definition cfg1 :: MonitorConfig where
  "cfg1 = \<lparr>label = ''api'', url = ''http://other.test/'', emails = [''dev@other.test''],
           interval = 60000\<rparr>"

definition cfg2 :: MonitorConfig where
  "cfg2 = \<lparr>label = ''web'', url = ''http://web.test/'', emails = [''dev@web.test''],
           interval = 60000\<rparr>"

section \<open>Properties of a single check\<close>

lemma sendEmail_Inr:
  "sendEmail sent to subject body =
     Inr [SesSend to subject body,
          (case sent of Inl err \<Rightarrow> ConsoleError (SESError err)
                      | Inr _ \<Rightarrow> ConsoleLog (Sent subject (join '', '' to)))]"
  by (simp add: sendEmail_def try_catch_def split: sum.splits)

lemma probe_Inr:
  "probe (Inr s) = \<lparr>statusCode = Some s, errorMsg = None, isConnectionError = False\<rparr>"
  by (simp add: probe_def)

lemma probe_no_response:
  "response e = None \<Longrightarrow>
   probe (Inl e) = \<lparr>statusCode = None, errorMsg = Some (message e), isConnectionError = True\<rparr>"
  by (simp add: probe_def)

lemma up_503: "up (probe (Inr 503)) = False"
  by (simp add: up_def isDowntime_def probe_def)

lemma alert_body_503:
  "alert_body cfg0 (probe (Inr 503)) = ''api (http://api.test/health) is now down: status 503''"
  by code_simp

lemma alert_subject_0:
  "alert_subject env0 cfg0 = ''[ALERT] api went DOWN (01/05/2024, 10:00)''"
  by code_simp

text \<open>
  The promise of \<open>checkOnce\<close> never rejects, and its effects are: the request, the log
  line, the email with its report on the console when the status changes between up
  and down, the assignment, and on the first check the line on the console.
\<close>

lemma checkOnce_unfold:
  "checkOnce env cfg state =
     Inr (state\<lparr>lastUp := Some (up (probe (axios_get env)))\<rparr>,
          [AxiosGet (url cfg) 30000, LogLine (label cfg) (entry env cfg (probe (axios_get env)))]
          @ (if lastUp state = Some True \<and> \<not> up (probe (axios_get env)) then
               [SesSend (emails cfg) (alert_subject env cfg)
                  (alert_body cfg (probe (axios_get env))),
                (case ses_send env of
                   Inl err \<Rightarrow> ConsoleError (SESError err)
                 | Inr _ \<Rightarrow> ConsoleLog (Sent (alert_subject env cfg) (join '', '' (emails cfg))))]
             else if lastUp state = Some False \<and> up (probe (axios_get env)) then
               [SesSend (emails cfg) (recovery_subject env cfg)
                  (recovery_body cfg (probe (axios_get env))),
                (case ses_send env of
                   Inl err \<Rightarrow> ConsoleError (SESError err)
                 | Inr _ \<Rightarrow>
                     ConsoleLog (Sent (recovery_subject env cfg) (join '', '' (emails cfg))))]
             else [])
          @ [AssignLastUp (up (probe (axios_get env)))]
          @ (if lastUp state = None then
               [ConsoleLog (InitialCheck (label cfg)
                  (if up (probe (axios_get env)) then ''UP'' else ''DOWN''))]
             else []))"
proof (cases "lastUp state")
  case None
  then show ?thesis by (simp add: checkOnce_def Let_def)
next
  case (Some b)
  then show ?thesis
    by (cases b; cases "up (probe (axios_get env))")
       (simp_all add: checkOnce_def Let_def sendEmail_Inr)
qed

text \<open>
  C1. For every previous status and every outcome, \<open>checkOnce\<close> settles normally, the
  status it leaves in the state is the next status of the table of section 4.1, and the
  emails it sends are exactly those of the action of the table: none from Unknown, none
  when the status stays, the DOWN alert from Up to Down, the RECOVERY notice from Down
  to Up.
\<close>

theorem transition_table:
  "\<exists>state' effs.
     checkOnce env cfg state = Inr (state', effs) \<and>
     status_of (lastUp state') =
       fst (transition (status_of (lastUp state)) (up (probe (axios_get env)))) \<and>
     emails_sent effs =
       expected_emails env cfg (probe (axios_get env))
         (snd (transition (status_of (lastUp state)) (up (probe (axios_get env)))))"
proof (cases "lastUp state")
  case None
  then show ?thesis
    by (cases "up (probe (axios_get env))")
       (simp_all add: checkOnce_def Let_def emails_sent_def expected_emails_def)
next
  case (Some b)
  then show ?thesis
    by (cases b; cases "up (probe (axios_get env))"; cases "ses_send env")
       (simp_all add: checkOnce_def Let_def sendEmail_Inr emails_sent_def expected_emails_def)
qed

theorem transition_table_witness:
  "\<exists>effs. checkOnce env0 cfg0 \<lparr>lastUp = Some True\<rparr> = Inr (\<lparr>lastUp = Some False\<rparr>, effs)
     \<and> emails_sent effs =
         [SesSend [''ops@api.test''] ''[ALERT] api went DOWN (01/05/2024, 10:00)''
            ''api (http://api.test/health) is now down: status 503'']"
proof -
  have a: "axios_get env0 = Inr 503" and e: "emails cfg0 = [''ops@api.test'']"
    by (simp_all add: env0_def cfg0_def)
  from transition_table [of env0 cfg0 "\<lparr>lastUp = Some True\<rparr>"]
  obtain state' effs where
    c: "checkOnce env0 cfg0 \<lparr>lastUp = Some True\<rparr> = Inr (state', effs)"
    and s: "status_of (lastUp state') = Down"
    and m: "emails_sent effs = expected_emails env0 cfg0 (probe (Inr 503)) DownAlert"
    by (auto simp: a up_503)
  from s have "lastUp state' = Some False"
    by (cases "lastUp state'" rule: status_of.cases) simp_all
  then have "state' = \<lparr>lastUp = Some False\<rparr>"
    by (cases state') simp
  with c m show ?thesis
    by (simp add: expected_emails_def alert_body_503 alert_subject_0 e)
qed

text \<open>
  C2. For every settled probe, \<open>up\<close> is the negation of: connection error, or a status
  code that is present and at least 500; the logged field is this value. A response
  with a status below 500, whether the promise resolved or rejected with the response,
  gives \<open>up = true\<close>; a status of 500 or more, and a rejection without response, give
  \<open>up = false\<close>.
\<close>

theorem up_rule:
  "up (probe r) =
     (\<not> (isConnectionError (probe r) \<or> (\<exists>s. statusCode (probe r) = Some s \<and> s \<ge> 500)))
   \<and> e_up (entry env cfg (probe r)) = up (probe r)
   \<and> up (probe (Inr s)) = (s < 500)
   \<and> up (probe (Inl \<lparr>response = Some s, message = m\<rparr>)) = (s < 500)
   \<and> up (probe (Inl \<lparr>response = None, message = m\<rparr>)) = False"
  by (auto simp: up_def isDowntime_def probe_def entry_def split: sum.splits option.splits)

theorem up_rule_witness:
  "up (probe (Inr 404)) \<and> \<not> up (probe (Inr 503))
   \<and> \<not> up (probe (Inl \<lparr>response = Some 500, message = ''Request failed''\<rparr>))
   \<and> \<not> up (probe (Inl \<lparr>response = None, message = ''ECONNREFUSED''\<rparr>))"
  using up_rule [of "Inr 404" env0 cfg0 404 "''Request failed''", THEN conjunct2]
    up_rule [of "Inr 503" env0 cfg0 503 "''Request failed''", THEN conjunct2]
    up_rule [of "Inr 503" env0 cfg0 500 "''Request failed''", THEN conjunct2]
    up_rule [of "Inr 503" env0 cfg0 500 "''ECONNREFUSED''", THEN conjunct2]
  by simp

text \<open>
  C6. When \<open>axios.get\<close> rejects with an error that has no response, \<open>checkOnce\<close> settles
  normally: the outcome has the connection error set, the message of the error as error
  message, no status code and \<open>up = false\<close>; the one log line carries these values, and
  \<open>false\<close> is assigned to \<open>state.lastUp\<close>.
\<close>

theorem connection_failure:
  assumes "axios_get env = Inl e" and "response e = None"
  shows "\<exists>effs.
     checkOnce env cfg state = Inr (\<lparr>lastUp = Some False\<rparr>, effs)
     \<and> probe (axios_get env) =
         \<lparr>statusCode = None, errorMsg = Some (message e), isConnectionError = True\<rparr>
     \<and> up (probe (axios_get env)) = False
     \<and> filter is_LogLine effs =
         [LogLine (label cfg)
            \<lparr>e_timestamp = toISOString env, e_url = url cfg, e_statusCode = None,
             e_error = Some (message e), e_responseTimeMs = now_end env - now_start env,
             e_up = False\<rparr>]
     \<and> filter is_AssignLastUp effs = [AssignLastUp False]"
proof -
  have p: "probe (axios_get env) =
         \<lparr>statusCode = None, errorMsg = Some (message e), isConnectionError = True\<rparr>"
    using assms by (simp add: probe_no_response)
  have u: "up (probe (axios_get env)) = False"
    by (simp add: p up_def isDowntime_def)
  have s: "state\<lparr>lastUp := Some False\<rparr> = \<lparr>lastUp = Some False\<rparr>"
    by (cases state) simp
  show ?thesis
    unfolding checkOnce_unfold u
    by (simp add: p [symmetric] u s entry_def split: sum.splits) (simp add: p)
qed

theorem connection_failure_witness:
  "\<exists>effs. checkOnce env2 cfg0 \<lparr>lastUp = Some True\<rparr> = Inr (\<lparr>lastUp = Some False\<rparr>, effs)
     \<and> filter is_LogLine effs =
         [LogLine ''api''
            \<lparr>e_timestamp = ''2024-05-01T10:00:00.250Z'', e_url = ''http://api.test/health'',
             e_statusCode = None, e_error = Some ''timeout of 30000ms exceeded'',
             e_responseTimeMs = 250, e_up = False\<rparr>]"
proof -
  have a: "axios_get env2 = Inl \<lparr>response = None, message = ''timeout of 30000ms exceeded''\<rparr>"
    by (simp add: env2_def)
  have r: "response \<lparr>response = None, message = ''timeout of 30000ms exceeded''\<rparr> = None"
    by simp
  from connection_failure [OF a r, of cfg0 "\<lparr>lastUp = Some True\<rparr>"]
  show ?thesis
    by (auto simp: env2_def env0_def cfg0_def)
qed

text \<open>
  C7. When the status changes between up and down and \<open>ses.send\<close> rejects, \<open>checkOnce\<close>
  still settles normally: the error is printed on \<open>console.error\<close>, the state is the one
  that a successful delivery leaves, and the assignment of \<open>state.lastUp\<close> is the last
  effect of the check.
\<close>

theorem notifier_failure:
  assumes "ses_send env = Inl err"
    and "status_of (lastUp state) = Up \<and> \<not> up (probe (axios_get env))
         \<or> status_of (lastUp state) = Down \<and> up (probe (axios_get env))"
  shows "\<exists>effs effs'.
     checkOnce env cfg state = Inr (state\<lparr>lastUp := Some (up (probe (axios_get env)))\<rparr>, effs)
     \<and> checkOnce (env\<lparr>ses_send := Inr ()\<rparr>) cfg state =
         Inr (state\<lparr>lastUp := Some (up (probe (axios_get env)))\<rparr>, effs')
     \<and> ConsoleError (SESError err) \<in> set effs
     \<and> last effs = AssignLastUp (up (probe (axios_get env)))"
proof -
  from assms(2) have "lastUp state = Some True \<and> \<not> up (probe (axios_get env))
         \<or> lastUp state = Some False \<and> up (probe (axios_get env))"
    by (cases "lastUp state" rule: status_of.cases) simp_all
  then show ?thesis
    unfolding checkOnce_unfold using assms(1) by auto
qed

theorem notifier_failure_witness:
  "\<exists>effs. checkOnce env2 cfg0 \<lparr>lastUp = Some True\<rparr> = Inr (\<lparr>lastUp = Some False\<rparr>, effs)
     \<and> ConsoleError (SESError ''Throttling'') \<in> set effs
     \<and> last effs = AssignLastUp False"
proof -
  have a: "ses_send env2 = Inl ''Throttling''"
    by (simp add: env2_def)
  have u: "up (probe (axios_get env2)) = False"
    by (simp add: env2_def up_def isDowntime_def probe_def)
  have b: "status_of (lastUp \<lparr>lastUp = Some True\<rparr>) = Up \<and> \<not> up (probe (axios_get env2))
         \<or> status_of (lastUp \<lparr>lastUp = Some True\<rparr>) = Down \<and> up (probe (axios_get env2))"
    by (simp add: u)
  from notifier_failure [OF a b, of cfg0]
  show ?thesis
    by (auto simp: u)
qed

text \<open>
  C8. Every run of \<open>checkOnce\<close> settles normally and performs, in this order: one
  request to the url with the timeout of 30000 ms; one call of \<open>logLine\<close> with the label
  and the record of timestamp (the text of \<open>toISOString\<close>), url, status code, error,
  response time and \<open>up\<close>; then the effects of the notification, if any; then one
  assignment of \<open>up\<close> to \<open>state.lastUp\<close>, which is the status of the state returned.
  Nothing but lines on the console, and that only on the first check, follows the
  assignment; no further request, log line or assignment occurs.
\<close>

theorem check_sequence:
  "\<exists>sending after.
     checkOnce env cfg state =
       Inr (state\<lparr>lastUp := Some (up (probe (axios_get env)))\<rparr>,
            [AxiosGet (url cfg) 30000,
             LogLine (label cfg)
               \<lparr>e_timestamp = toISOString env, e_url = url cfg,
                e_statusCode = statusCode (probe (axios_get env)),
                e_error = errorMsg (probe (axios_get env)),
                e_responseTimeMs = now_end env - now_start env,
                e_up = up (probe (axios_get env))\<rparr>]
            @ sending @ [AssignLastUp (up (probe (axios_get env)))] @ after)
     \<and> (\<forall>x \<in> set (sending @ after).
           \<not> is_AxiosGet x \<and> \<not> is_LogLine x \<and> \<not> is_AssignLastUp x)
     \<and> emails_sent after = []
     \<and> (after = [] \<or> lastUp state = None)"
proof -
  define sending where "sending =
    (if lastUp state = Some True \<and> \<not> up (probe (axios_get env)) then
       [SesSend (emails cfg) (alert_subject env cfg) (alert_body cfg (probe (axios_get env))),
        (case ses_send env of
           Inl err \<Rightarrow> ConsoleError (SESError err)
         | Inr _ \<Rightarrow> ConsoleLog (Sent (alert_subject env cfg) (join '', '' (emails cfg))))]
     else if lastUp state = Some False \<and> up (probe (axios_get env)) then
       [SesSend (emails cfg) (recovery_subject env cfg)
          (recovery_body cfg (probe (axios_get env))),
        (case ses_send env of
           Inl err \<Rightarrow> ConsoleError (SESError err)
         | Inr _ \<Rightarrow> ConsoleLog (Sent (recovery_subject env cfg) (join '', '' (emails cfg))))]
     else [])"
  define after where "after =
    (if lastUp state = None then
       [ConsoleLog (InitialCheck (label cfg)
          (if up (probe (axios_get env)) then ''UP'' else ''DOWN''))]
     else [])"
  have "checkOnce env cfg state =
       Inr (state\<lparr>lastUp := Some (up (probe (axios_get env)))\<rparr>,
            [AxiosGet (url cfg) 30000, LogLine (label cfg) (entry env cfg (probe (axios_get env)))]
            @ sending @ [AssignLastUp (up (probe (axios_get env)))] @ after)"
    unfolding sending_def after_def by (rule checkOnce_unfold)
  moreover have "\<forall>x \<in> set (sending @ after).
      \<not> is_AxiosGet x \<and> \<not> is_LogLine x \<and> \<not> is_AssignLastUp x"
    by (auto simp: sending_def after_def split: sum.splits)
  moreover have "emails_sent after = []" and "after = [] \<or> lastUp state = None"
    by (simp_all add: after_def emails_sent_def)
  ultimately show ?thesis
    unfolding entry_def by blast
qed

theorem check_sequence_witness:
  "\<exists>sending.
     checkOnce env0 cfg0 \<lparr>lastUp = Some True\<rparr> =
       Inr (\<lparr>lastUp = Some False\<rparr>,
            [AxiosGet ''http://api.test/health'' 30000,
             LogLine ''api''
               \<lparr>e_timestamp = ''2024-05-01T10:00:00.250Z'', e_url = ''http://api.test/health'',
                e_statusCode = Some 503, e_error = None, e_responseTimeMs = 250, e_up = False\<rparr>]
            @ sending @ [AssignLastUp False])
     \<and> filter is_AxiosGet sending = [] \<and> filter is_LogLine sending = []
     \<and> filter is_AssignLastUp sending = []"
proof -
  have u: "up (probe (axios_get env0)) = False"
    by (simp add: env0_def up_503)
  from check_sequence [of env0 cfg0 "\<lparr>lastUp = Some True\<rparr>", unfolded u]
  obtain sending after where
    c: "checkOnce env0 cfg0 \<lparr>lastUp = Some True\<rparr> =
       Inr (\<lparr>lastUp = Some True\<rparr>\<lparr>lastUp := Some False\<rparr>,
            [AxiosGet (url cfg0) 30000,
             LogLine (label cfg0)
               \<lparr>e_timestamp = toISOString env0, e_url = url cfg0,
                e_statusCode = statusCode (probe (axios_get env0)),
                e_error = errorMsg (probe (axios_get env0)),
                e_responseTimeMs = now_end env0 - now_start env0,
                e_up = False\<rparr>]
            @ sending @ [AssignLastUp False] @ after)"
    and n: "\<forall>x \<in> set (sending @ after).
              \<not> is_AxiosGet x \<and> \<not> is_LogLine x \<and> \<not> is_AssignLastUp x"
    and e: "after = [] \<or> lastUp \<lparr>lastUp = Some True\<rparr> = None"
    by blast
  from e have "after = []" by simp
  with c n show ?thesis
    by (intro exI [of _ sending]) (simp add: env0_def cfg0_def probe_Inr filter_empty_conv)
qed

text \<open>
  What holds of the fields of every outcome: the status code is absent exactly when the
  connection error is set, the error message is present exactly then, and an outcome
  that is up, or that comes from a response, has a status code.
\<close>

lemma probe_fields:
  "(statusCode (probe r) = None) = isConnectionError (probe r)
   \<and> (errorMsg (probe r) \<noteq> None) = isConnectionError (probe r)
   \<and> (up (probe r) \<longrightarrow> statusCode (probe r) \<noteq> None)
   \<and> (\<not> isConnectionError (probe r) \<longrightarrow> statusCode (probe r) \<noteq> None)"
  by (auto simp: probe_def up_def isDowntime_def split: sum.splits option.splits)

text \<open>
  C10. The fallback text of the DOWN alert does not always have a status code: a
  connection error whose message is the empty string leaves the status code \<open>null\<close> and
  the message falsy, so that the target that was up gets an alert whose body ends in
  "status null".
\<close>

theorem alert_status_null:
  "checkOnce env1 cfg0 \<lparr>lastUp = Some True\<rparr> =
     Inr (\<lparr>lastUp = Some False\<rparr>,
          [AxiosGet ''http://api.test/health'' 30000,
           LogLine ''api''
             \<lparr>e_timestamp = ''2024-05-01T10:00:00.250Z'', e_url = ''http://api.test/health'',
              e_statusCode = None, e_error = Some '''', e_responseTimeMs = 250, e_up = False\<rparr>,
           SesSend [''ops@api.test''] ''[ALERT] api went DOWN (01/05/2024, 10:00)''
             ''api (http://api.test/health) is now down: status null'',
           ConsoleLog (Sent ''[ALERT] api went DOWN (01/05/2024, 10:00)'' ''ops@api.test''),
           AssignLastUp False])"
  by code_simp

section \<open>Properties of buildRule\<close>

lemma decomposition:
  fixes ms :: int
  shows "(ms div 1000) div 60 = ms div 60000"
    and "(ms div 60000) div 60 = ms div 3600000"
    and "(ms div 1000 < 60) = (ms < 60000)"
    and "(ms div 60000 < 60) = (ms < 3600000)"
    and "(ms div 3600000 < 24) = (ms < 86400000)"
proof -
  show "(ms div 1000) div 60 = ms div 60000" "(ms div 60000) div 60 = ms div 3600000"
    by (simp_all add: zdiv_zmult2_eq [symmetric])
  show "(ms div 1000 < 60) = (ms < 60000)"
    using zdiv_mono1 [of ms 59999 1000] zdiv_mono1 [of 60000 ms 1000] by auto
  show "(ms div 60000 < 60) = (ms < 3600000)"
    using zdiv_mono1 [of ms 3599999 60000] zdiv_mono1 [of 3600000 ms 60000] by auto
  show "(ms div 3600000 < 24) = (ms < 86400000)"
    using zdiv_mono1 [of ms 86399999 3600000] zdiv_mono1 [of 86400000 ms 3600000] by auto
qed

text \<open>The four branches in terms of the interval itself.\<close>

lemma buildRule_cases:
  "buildRule ms =
     (if ms < 60000 then
        new_RecurrenceRule\<lparr>second := Some (Range 0 59 (ms div 1000))\<rparr>
      else if (ms div 1000) mod 60 = 0 \<and> ms < 3600000 then
        new_RecurrenceRule\<lparr>second := Some (Num 0), minute := Some (Range 0 59 (ms div 60000))\<rparr>
      else if (ms div 60000) mod 60 = 0 \<and> ms < 86400000 then
        new_RecurrenceRule\<lparr>second := Some (Num 0), minute := Some (Num 0),
          hour := Some (Range 0 23 (ms div 3600000))\<rparr>
      else midnight_rule)"
  by (simp add: buildRule_def Let_def decomposition midnight_rule_def new_RecurrenceRule_def)

lemma step5:
  "(0 \<le> s \<and> s < 59 \<and> s mod 5 = 0) = (s \<in> {0, 5, 10, 15, 20, 25, 30, 35, 40, 45, 50, 55})"
  for s :: int
  by (simp; presburger)

lemma step2:
  "(0 \<le> m \<and> m < 59 \<and> m mod 2 = 0) =
   (m \<in> {0, 2, 4, 6, 8, 10, 12, 14, 16, 18, 20, 22, 24, 26, 28, 30, 32, 34, 36, 38, 40, 42, 44,
         46, 48, 50, 52, 54, 56, 58})"
  for m :: int
  by (simp; presburger)

text \<open>
  C3. The claim names 3,630,000 ms as an interval that gets the midnight rule. It does
  not: its whole seconds, 3630, are no multiple of 60, but its whole minutes are 60, so
  the third check passes and the rule fires every hour.
\<close>

theorem hourly_not_midnight:
  "buildRule 3630000 =
     new_RecurrenceRule\<lparr>second := Some (Num 0), minute := Some (Num 0),
       hour := Some (Range 0 23 1)\<rparr>
   \<and> buildRule 3630000 \<noteq> midnight_rule"
  by (simp add: buildRule_cases midnight_rule_def new_RecurrenceRule_def)

text \<open>
  C3, amended. \<open>buildRule\<close> returns the midnight rule exactly for the intervals that
  fail the three checks as the code makes them, on the whole seconds and the whole
  minutes of the interval: at least 60 s; whole seconds no multiple of 60, or at least
  3600 s; whole minutes no multiple of 60, or at least 86400 s. 65,000 ms is such an
  interval.
\<close>

theorem midnight_fallback:
  "(buildRule ms = midnight_rule) =
     (60000 \<le> ms \<and> ((ms div 1000) mod 60 \<noteq> 0 \<or> 3600000 \<le> ms)
      \<and> ((ms div 60000) mod 60 \<noteq> 0 \<or> 86400000 \<le> ms))"
  by (auto simp: buildRule_cases midnight_rule_def new_RecurrenceRule_def)

theorem midnight_fallback_witness:
  "buildRule 65000 = midnight_rule"
  using midnight_fallback [of 65000] by simp

text \<open>
  C4. An interval under 60 s gets the rule whose seconds are the range from 0 to 59
  with the whole seconds of the interval as step, every other field \<open>null\<close>. At 60 s or
  more and under 3600 s, with whole seconds a multiple of 60, the rule has second 0 and
  the minutes stepping by the whole minutes; at 3600 s or more and under 86400 s, with
  whole minutes a multiple of 60, it has second 0, minute 0 and the hours stepping by
  the whole hours. The rule of 5000 ms fires at the seconds 0, 5, ..., 55 of every
  minute, and the rule of 120000 ms at second 0 of every second minute.
\<close>

theorem buildRule_precedence:
  "(ms < 60000 \<longrightarrow>
      buildRule ms = new_RecurrenceRule\<lparr>second := Some (Range 0 59 (ms div 1000))\<rparr>)
   \<and> (60000 \<le> ms \<and> ms < 3600000 \<and> (ms div 1000) mod 60 = 0 \<longrightarrow>
      buildRule ms =
        new_RecurrenceRule\<lparr>second := Some (Num 0), minute := Some (Range 0 59 (ms div 60000))\<rparr>)
   \<and> (3600000 \<le> ms \<and> ms < 86400000 \<and> (ms div 60000) mod 60 = 0 \<longrightarrow>
      buildRule ms =
        new_RecurrenceRule\<lparr>second := Some (Num 0), minute := Some (Num 0),
          hour := Some (Range 0 23 (ms div 3600000))\<rparr>)
   \<and> fires (buildRule 5000) h m s = (s \<in> {0, 5, 10, 15, 20, 25, 30, 35, 40, 45, 50, 55})
   \<and> fires (buildRule 120000) h m s =
       (s = 0 \<and> m \<in> {0, 2, 4, 6, 8, 10, 12, 14, 16, 18, 20, 22, 24, 26, 28, 30, 32, 34, 36, 38,
                      40, 42, 44, 46, 48, 50, 52, 54, 56, 58})"
proof -
  have "fires (buildRule 5000) h m s = (0 \<le> s \<and> s < 59 \<and> s mod 5 = 0)"
    by (simp add: buildRule_cases fires_def new_RecurrenceRule_def range_contains_def)
  moreover have "fires (buildRule 120000) h m s = (s = 0 \<and> 0 \<le> m \<and> m < 59 \<and> m mod 2 = 0)"
    by (auto simp: buildRule_cases fires_def new_RecurrenceRule_def range_contains_def)
  ultimately show ?thesis
    unfolding step5 step2 by (simp add: buildRule_cases)
qed

theorem buildRule_precedence_witness:
  "buildRule 5000 = new_RecurrenceRule\<lparr>second := Some (Range 0 59 5)\<rparr>
   \<and> buildRule 120000 =
       new_RecurrenceRule\<lparr>second := Some (Num 0), minute := Some (Range 0 59 2)\<rparr>
   \<and> buildRule 7200000 =
       new_RecurrenceRule\<lparr>second := Some (Num 0), minute := Some (Num 0),
         hour := Some (Range 0 23 2)\<rparr>
   \<and> fires (buildRule 5000) 13 7 35 \<and> \<not> fires (buildRule 5000) 13 7 36
   \<and> fires (buildRule 120000) 13 8 0 \<and> \<not> fires (buildRule 120000) 13 7 0"
  using buildRule_precedence [of 5000 13 7 35] buildRule_precedence [of 120000 13 7 36]
    buildRule_precedence [of 7200000 13 8 0] buildRule_precedence [of 5000 13 7 0]
  by simp

section \<open>Properties of the event loop\<close>

text \<open>
  A check that runs without any other event in between leaves the state that
  \<open>checkOnce\<close> returns: the two stretches of the event loop make up the function.
\<close>

lemma checkOnce_phases:
  "checkOnce env cfg state =
     Inr (case checkOnce_resume (axios_get env) state of
            Settled st \<Rightarrow> st
          | Sending u \<Rightarrow> checkOnce_finish u state,
          snd (projr (checkOnce env cfg state)))"
  unfolding checkOnce_unfold
  by (cases "lastUp state")
     (auto simp: checkOnce_resume_def checkOnce_finish_def Let_def)

lemma filter_remove_nth_le:
  "length (filter P (remove_nth i xs)) \<le> length (filter P xs)"
proof (cases "i < length xs")
  case True
  then have "xs = take i xs @ xs ! i # drop (Suc i) xs"
    by (rule id_take_nth_drop)
  then have "filter P xs = filter P (take i xs) @ filter P [xs ! i] @ filter P (drop (Suc i) xs)"
    by (metis append_Cons append_Nil filter_append)
  then show ?thesis
    by (simp add: remove_nth_def)
next
  case False
  then show ?thesis by (simp add: remove_nth_def)
qed

lemma filter_update_same:
  assumes "i < length xs" and "P x = P (xs ! i)"
  shows "length (filter P (xs[i := x])) = length (filter P xs)"
proof -
  have "xs = take i xs @ xs ! i # drop (Suc i) xs"
    using assms(1) by (rule id_take_nth_drop)
  then have "length (filter P xs) =
      length (filter P (take i xs)) + length (filter P [xs ! i])
        + length (filter P (drop (Suc i) xs))"
    by (metis append_Cons append_Nil filter_append length_append add.assoc)
  moreover have "xs[i := x] = take i xs @ x # drop (Suc i) xs"
    using assms(1) by (rule upd_conv_take_nth_drop)
  ultimately show ?thesis
    using assms(2) by simp
qed

lemma set_remove_nth: "set (remove_nth i xs) \<subseteq> set xs"
  unfolding remove_nth_def
  by (metis Un_least set_append set_drop_subset set_take_subset)

subsection \<open>Checks in flight\<close>

lemma inflight_job_callback:
  "j < length (jobs s) \<Longrightarrow>
   inflight (job_callback j s) k = inflight s k + (if k = j then 1 else 0)"
  by (auto simp: job_callback_def inflight_def split: prod.splits)

lemma job_callback_invalid:
  "\<not> j < length (jobs s) \<Longrightarrow> job_callback j s = s"
  by (simp add: job_callback_def)

lemma count_started:
  "length (filter (\<lambda>t. t_target t = k)
     (map (\<lambda>(j, cfg). \<lparr>t_target = j, t_cfg = cfg, t_state = f cfg, t_await = Axios\<rparr>)
        (enumerate n cfgs))) =
   (if n \<le> k \<and> k < n + length cfgs then 1 else 0)"
proof -
  have "length (filter (\<lambda>p. fst p = k) (enumerate n cfgs)) =
      (if n \<le> k \<and> k < n + length cfgs then 1 else 0)"
  proof (induction cfgs arbitrary: n)
    case Nil
    then show ?case by simp
  next
    case (Cons c cfgs)
    from Cons.IH [of "Suc n"] show ?case
      by (auto split: if_splits)
  qed
  then show ?thesis
    by (simp add: filter_map o_def case_prod_unfold)
qed

lemma inflight_warmup_callback:
  "inflight (warmup_callback s) k = inflight s k + (if k < length (configs s) then 1 else 0)"
  using count_started [of k "\<lambda>cfg. monitors s (label cfg)" 0 "configs s"]
  by (simp add: warmup_callback_def inflight_def)

lemma inflight_axios_settles:
  "inflight (axios_settles i r s) k \<le> inflight s k"
  by (auto simp: axios_settles_def inflight_def filter_remove_nth_le filter_update_same
      split: option.splits resumed.splits)

lemma inflight_ses_settles:
  "inflight (ses_settles i sent s) k \<le> inflight s k"
  by (auto simp: ses_settles_def inflight_def filter_remove_nth_le
      split: option.splits await.splits)

lemma step_in_time:
  assumes "in_time e s" and "\<forall>j. inflight s j \<le> 1"
  shows "inflight (step e s) k \<le> 1"
proof (cases e)
  case (JobFires j)
  show ?thesis
  proof (cases "j < length (jobs s)")
    case True
    with JobFires assms show ?thesis
      by (auto simp: inflight_job_callback)
  next
    case False
    with JobFires assms show ?thesis
      by (simp add: job_callback_invalid)
  qed
next
  case WarmupFires
  with assms show ?thesis
    by (auto simp: inflight_warmup_callback)
next
  case (AxiosSettles i r)
  with assms(2) inflight_axios_settles [of i r s k] show ?thesis
    by (metis le_trans step.simps(3))
next
  case (SesSettles i sent)
  with assms(2) inflight_ses_settles [of i sent s k] show ?thesis
    by (metis le_trans step.simps(4))
qed

lemma spaced_run:
  "spaced es s \<Longrightarrow> \<forall>j. inflight s j \<le> 1 \<Longrightarrow> inflight (run es s) k \<le> 1"
proof (induction es arbitrary: s)
  case Nil
  then show ?case by simp
next
  case (Cons e es)
  from Cons.prems have t: "in_time e s" and r: "spaced es (step e s)"
    by simp_all
  from t Cons.prems(2) have "\<forall>j. inflight (step e s) j \<le> 1"
    by (blast intro: step_in_time)
  with r have "inflight (run es (step e s)) k \<le> 1"
    by (rule Cons.IH)
  then show ?case by simp
qed

lemma main_cfg0:
  "main [cfg0] =
     \<lparr>configs = [cfg0], store = (\<lambda>_. \<lparr>lastUp = None\<rparr>), allocated = 1,
      monitors = [''api'' \<mapsto> 0], jobs = [(buildRule 5000, cfg0, 0)],
      warmup_pending = True, running = []\<rparr>"
  by (simp add: main_def initial_def schedule_target_def cfg0_def fun_upd_idem)

text \<open>
  C5. Checks of one target do overlap: when the job of the only target fires twice, or
  fires after the warm-up, before any promise has settled, two checks of the target
  are in flight.
\<close>

theorem overlapping_checks:
  "inflight (run [JobFires 0, JobFires 0] (main [cfg0])) 0 = 2
   \<and> inflight (run [WarmupFires, JobFires 0] (main [cfg0])) 0 = 2"
  by (simp add: main_cfg0 job_callback_def warmup_callback_def inflight_def enumerate_eq_zip)

text \<open>
  C5, amended. Nothing serialises the checks of a target: a fire of its job, and the
  warm-up, start a check whatever is in flight, one more check of the target than
  before. Checks of a target do not overlap in the runs where every fire comes when
  no check of the targets it starts is in flight, that is, when each check has settled
  before the next one is due.
\<close>

theorem fires_not_serialised:
  "(j < length (jobs s) \<longrightarrow> inflight (step (JobFires j) s) j = inflight s j + 1)
   \<and> (warmup_pending s \<and> j < length (configs s) \<longrightarrow>
        inflight (step WarmupFires s) j = inflight s j + 1)
   \<and> (spaced es s \<and> (\<forall>k. inflight s k \<le> 1) \<longrightarrow> inflight (run es s) j \<le> 1)"
proof (intro conjI impI)
  assume "j < length (jobs s)"
  then show "inflight (step (JobFires j) s) j = inflight s j + 1"
    by (simp add: inflight_job_callback)
next
  assume "warmup_pending s \<and> j < length (configs s)"
  then show "inflight (step WarmupFires s) j = inflight s j + 1"
    by (simp add: inflight_warmup_callback)
next
  assume "spaced es s \<and> (\<forall>k. inflight s k \<le> 1)"
  then show "inflight (run es s) j \<le> 1"
    by (blast intro: spaced_run)
qed

theorem fires_not_serialised_witness:
  "inflight (step (JobFires 0) (main [cfg0])) 0 = 1
   \<and> inflight (step WarmupFires (main [cfg0])) 0 = 1
   \<and> spaced [WarmupFires, AxiosSettles 0 (Inr 503), JobFires 0] (main [cfg0])
   \<and> inflight (run [WarmupFires, AxiosSettles 0 (Inr 503), JobFires 0] (main [cfg0])) 0 \<le> 1"
proof -
  have i: "\<forall>k. inflight (main [cfg0]) k \<le> 1"
    by (simp add: main_cfg0 inflight_def)
  have j: "0 < length (jobs (main [cfg0]))" "0 < length (configs (main [cfg0]))"
    and w: "warmup_pending (main [cfg0])"
    and z: "inflight (main [cfg0]) 0 = 0"
    by (simp_all add: main_cfg0 inflight_def)
  have s: "spaced [WarmupFires, AxiosSettles 0 (Inr 503), JobFires 0] (main [cfg0])"
    by (simp add: main_cfg0 inflight_def warmup_callback_def enumerate_eq_zip axios_settles_def
        checkOnce_resume_def probe_def up_def isDowntime_def remove_nth_def)
  from fires_not_serialised [of 0 "main [cfg0]"
      "[WarmupFires, AxiosSettles 0 (Inr 503), JobFires 0]"] i j w z s
  show ?thesis by simp
qed

subsection \<open>The state object of a target\<close>

lemma schedule_target_fields:
  "configs (schedule_target s cfg) = configs s"
  "running (schedule_target s cfg) = running s"
  "allocated (schedule_target s cfg) = Suc (allocated s)"
  "store (schedule_target s cfg) = (store s)(allocated s := \<lparr>lastUp = None\<rparr>)"
  "monitors (schedule_target s cfg) = (monitors s)(label cfg \<mapsto> allocated s)"
  "jobs (schedule_target s cfg) = jobs s @ [(buildRule (interval cfg), cfg, allocated s)]"
  by (simp_all add: schedule_target_def Let_def)

text \<open>
  After the first loop of \<open>main\<close> over \<open>xs\<close>: as many state objects as targets, all with
  \<open>lastUp = null\<close>, and job \<open>j\<close> holds target \<open>j\<close> and state object \<open>j\<close>.
\<close>

lemma scheduled:
  "configs (foldl schedule_target (initial c) xs) = c
   \<and> running (foldl schedule_target (initial c) xs) = []
   \<and> allocated (foldl schedule_target (initial c) xs) = length xs
   \<and> store (foldl schedule_target (initial c) xs) = (\<lambda>_. \<lparr>lastUp = None\<rparr>)
   \<and> jobs (foldl schedule_target (initial c) xs) =
       map (\<lambda>(j, cfg). (buildRule (interval cfg), cfg, j)) (enumerate 0 xs)"
proof (induction xs rule: rev_induct)
  case Nil
  then show ?case by (simp add: initial_def)
next
  case (snoc x xs)
  then show ?case
    by (auto simp: schedule_target_fields enumerate_append_eq)
qed

text \<open>With distinct labels, the map gives every target its own state object.\<close>

lemma scheduled_monitors:
  "distinct (map label xs) \<Longrightarrow> j < length xs \<Longrightarrow>
   monitors (foldl schedule_target (initial c) xs) (label (xs ! j)) = Some j"
proof (induction xs rule: rev_induct)
  case Nil
  then show ?case by simp
next
  case (snoc x xs)
  show ?case
  proof (cases "j < length xs")
    case True
    then have "xs ! j \<in> set xs" by simp
    moreover from snoc.prems have "label x \<notin> label ` set xs" by simp
    ultimately have "label (xs ! j) \<noteq> label x"
      by (metis imageI)
    with True snoc show ?thesis
      by (simp add: schedule_target_fields scheduled nth_append)
  next
    case False
    with snoc.prems have "j = length xs" by simp
    then show ?thesis
      by (simp add: schedule_target_fields scheduled)
  qed
qed

lemma wired_main: "distinct (map label cfgs) \<Longrightarrow> wired (main cfgs)"
  by (simp add: wired_def main_def scheduled scheduled_monitors nth_enumerate_eq)

lemma step_fields:
  "configs (step e s) = configs s \<and> monitors (step e s) = monitors s \<and> jobs (step e s) = jobs s"
  by (cases e)
     (auto simp: job_callback_def warmup_callback_def axios_settles_def ses_settles_def
       split: prod.splits option.splits resumed.splits await.splits)

lemma wired_step: "wired s \<Longrightarrow> wired (step e s)"
proof (cases e)
  case (JobFires j)
  assume "wired s"
  with JobFires show ?thesis
    by (auto simp: wired_def job_callback_def split: prod.splits)
next
  case WarmupFires
  assume "wired s"
  with WarmupFires show ?thesis
    by (auto simp: wired_def warmup_callback_def in_set_enumerate_eq)
next
  case (AxiosSettles i r)
  assume w: "wired s"
  have "\<forall>t \<in> set (running (axios_settles i r s)).
      t_target t < length (configs s) \<and> t_cfg t = configs s ! t_target t \<and>
      t_state t = Some (t_target t)"
  proof
    fix t assume t: "t \<in> set (running (axios_settles i r s))"
    from w have old: "\<forall>t \<in> set (running s).
        t_target t < length (configs s) \<and> t_cfg t = configs s ! t_target t \<and>
        t_state t = Some (t_target t)"
      by (simp add: wired_def)
    from t consider "t \<in> set (running s)"
      | u where "i < length (running s)" "t = (running s ! i)\<lparr>t_await := Ses u\<rparr>"
      using set_remove_nth [of i "running s"] set_update_subset_insert [of "running s" i]
      by (auto simp: axios_settles_def split: if_splits option.splits resumed.splits)
    then show "t_target t < length (configs s) \<and> t_cfg t = configs s ! t_target t \<and>
        t_state t = Some (t_target t)"
    proof cases
      case 1
      with old show ?thesis by blast
    next
      case 2
      with old nth_mem [of i "running s"] show ?thesis by simp
    qed
  qed
  with w AxiosSettles show ?thesis
    using step_fields [of e s] by (simp add: wired_def)
next
  case (SesSettles i sent)
  assume w: "wired s"
  have "set (running (ses_settles i sent s)) \<subseteq> set (running s)"
    using set_remove_nth [of i "running s"]
    by (auto simp: ses_settles_def split: if_splits option.splits await.splits)
  with w SesSettles show ?thesis
    using step_fields [of e s] by (auto simp: wired_def)
qed

lemma wired_run: "wired s \<Longrightarrow> wired (run es s)"
  by (induction es arbitrary: s) (simp_all add: wired_step)

lemma run_fields:
  "configs (run es s) = configs s \<and> jobs (run es s) = jobs s"
  by (induction es arbitrary: s) (simp_all add: step_fields)

text \<open>An event changes a state object only through the task it resumes.\<close>

lemma store_frame:
  "store (step e s) k \<noteq> store s k \<Longrightarrow> \<exists>t. resumed_task e s = Some t \<and> t_state t = Some k"
  by (cases e)
     (auto simp: job_callback_def warmup_callback_def axios_settles_def ses_settles_def
       resumed_task_def split: prod.splits option.splits resumed.splits await.splits if_splits)

lemma main_cfg0_cfg1:
  "main [cfg0, cfg1] =
     \<lparr>configs = [cfg0, cfg1], store = (\<lambda>_. \<lparr>lastUp = None\<rparr>), allocated = 2,
      monitors = [''api'' \<mapsto> 1],
      jobs = [(buildRule 5000, cfg0, 0), (buildRule 60000, cfg1, 1)],
      warmup_pending = True, running = []\<rparr>"
  by (simp add: main_def initial_def schedule_target_def cfg0_def cfg1_def fun_upd_idem)

lemma main_cfg0_cfg2:
  "main [cfg0, cfg2] =
     \<lparr>configs = [cfg0, cfg2], store = (\<lambda>_. \<lparr>lastUp = None\<rparr>), allocated = 2,
      monitors = [''api'' \<mapsto> 0, ''web'' \<mapsto> 1],
      jobs = [(buildRule 5000, cfg0, 0), (buildRule 60000, cfg2, 1)],
      warmup_pending = True, running = []\<rparr>"
  by (simp add: main_def initial_def schedule_target_def cfg0_def cfg2_def fun_upd_idem)

text \<open>
  C9. With two targets of the same label, each job holds a state object of its own, but
  the warm-up check of the first target is called with the state object of the second:
  when its probe settles, the state of the second target is written and the state of
  the first is left as it was.
\<close>

theorem shared_state:
  "map snd (jobs (main [cfg0, cfg1])) = [(cfg0, 0), (cfg1, 1)]
   \<and> running (run [WarmupFires] (main [cfg0, cfg1])) =
       [\<lparr>t_target = 0, t_cfg = cfg0, t_state = Some 1, t_await = Axios\<rparr>,
        \<lparr>t_target = 1, t_cfg = cfg1, t_state = Some 1, t_await = Axios\<rparr>]
   \<and> store (run [WarmupFires, AxiosSettles 0 (Inr 200)] (main [cfg0, cfg1])) 0 =
       \<lparr>lastUp = None\<rparr>
   \<and> store (run [WarmupFires, AxiosSettles 0 (Inr 200)] (main [cfg0, cfg1])) 1 =
       \<lparr>lastUp = Some True\<rparr>"
  by (simp add: main_cfg0_cfg1 warmup_callback_def enumerate_eq_zip axios_settles_def
       checkOnce_resume_def probe_def up_def isDowntime_def remove_nth_def)
     (simp add: cfg0_def cfg1_def)

text \<open>
  C9, amended. For targets with pairwise distinct labels, at every point of every run:
  job \<open>j\<close> holds target \<open>j\<close> and state object \<open>j\<close>, so that no two targets have the same
  object, and every object starts with \<open>lastUp = null\<close>; every check in flight,
  started by a job or by the warm-up, holds the configuration and the state object of
  its own target; and an event changes state object \<open>k\<close> only by resuming a check of
  target \<open>k\<close>.
\<close>

theorem own_state_only:
  assumes "distinct (map label cfgs)"
  shows "map snd (jobs (run es (main cfgs))) = zip cfgs [0..<length cfgs]
   \<and> (\<forall>j. store (main cfgs) j = \<lparr>lastUp = None\<rparr>)
   \<and> (\<forall>t \<in> set (running (run es (main cfgs))).
        t_target t < length cfgs \<and> t_cfg t = cfgs ! t_target t \<and> t_state t = Some (t_target t))
   \<and> (\<forall>k. store (step e (run es (main cfgs))) k \<noteq> store (run es (main cfgs)) k \<longrightarrow>
        (\<exists>t. resumed_task e (run es (main cfgs)) = Some t \<and> t_target t = k))"
proof (intro conjI)
  have c: "configs (run es (main cfgs)) = cfgs"
    by (simp add: run_fields main_def scheduled)
  from assms have w: "wired (run es (main cfgs))"
    by (simp add: wired_main wired_run)
  show "map snd (jobs (run es (main cfgs))) = zip cfgs [0..<length cfgs]"
    by (simp add: run_fields main_def scheduled enumerate_eq_zip zip_commute [of cfgs]
        map_zip_map2 case_prod_unfold zip_map_fst_snd)
  show "\<forall>j. store (main cfgs) j = \<lparr>lastUp = None\<rparr>"
    by (simp add: main_def scheduled)
  from w c show t: "\<forall>t \<in> set (running (run es (main cfgs))).
        t_target t < length cfgs \<and> t_cfg t = cfgs ! t_target t \<and> t_state t = Some (t_target t)"
    by (simp add: wired_def)
  show "\<forall>k. store (step e (run es (main cfgs))) k \<noteq> store (run es (main cfgs)) k \<longrightarrow>
        (\<exists>t. resumed_task e (run es (main cfgs)) = Some t \<and> t_target t = k)"
  proof (intro allI impI)
    fix k assume "store (step e (run es (main cfgs))) k \<noteq> store (run es (main cfgs)) k"
    then obtain t' where r: "resumed_task e (run es (main cfgs)) = Some t'"
      and k: "t_state t' = Some k"
      using store_frame by blast
    from r have "t' \<in> set (running (run es (main cfgs)))"
      by (auto simp: resumed_task_def split: event.splits if_splits)
    with t k have "t_target t' = k" by auto
    with r show "\<exists>t. resumed_task e (run es (main cfgs)) = Some t \<and> t_target t = k"
      by blast
  qed
qed

theorem own_state_only_witness:
  "distinct (map label [cfg0, cfg2])
   \<and> running (run [WarmupFires] (main [cfg0, cfg2])) =
       [\<lparr>t_target = 0, t_cfg = cfg0, t_state = Some 0, t_await = Axios\<rparr>,
        \<lparr>t_target = 1, t_cfg = cfg2, t_state = Some 1, t_await = Axios\<rparr>]
   \<and> map t_state (running (run [WarmupFires] (main [cfg0, cfg2]))) =
       map (\<lambda>t. Some (t_target t)) (running (run [WarmupFires] (main [cfg0, cfg2])))
   \<and> store (step (AxiosSettles 0 (Inr 200)) (run [WarmupFires] (main [cfg0, cfg2]))) 0
        \<noteq> store (run [WarmupFires] (main [cfg0, cfg2])) 0
   \<and> (\<exists>t. resumed_task (AxiosSettles 0 (Inr 200)) (run [WarmupFires] (main [cfg0, cfg2]))
             = Some t
        \<and> t_target t = 0)"
proof -
  have d: "distinct (map label [cfg0, cfg2])"
    by (simp add: cfg0_def cfg2_def)
  have r: "running (run [WarmupFires] (main [cfg0, cfg2])) =
       [\<lparr>t_target = 0, t_cfg = cfg0, t_state = Some 0, t_await = Axios\<rparr>,
        \<lparr>t_target = 1, t_cfg = cfg2, t_state = Some 1, t_await = Axios\<rparr>]"
    by (simp add: main_cfg0_cfg2 warmup_callback_def enumerate_eq_zip)
       (simp add: cfg0_def cfg2_def)
  have s: "store (step (AxiosSettles 0 (Inr 200)) (run [WarmupFires] (main [cfg0, cfg2]))) 0
        \<noteq> store (run [WarmupFires] (main [cfg0, cfg2])) 0"
    using r
    by (simp add: axios_settles_def checkOnce_resume_def probe_def up_def isDowntime_def)
       (simp add: main_cfg0_cfg2 warmup_callback_def)
  from own_state_only [OF d, of "[WarmupFires]" "AxiosSettles 0 (Inr 200)"]
  have o: "\<forall>t \<in> set (running (run [WarmupFires] (main [cfg0, cfg2]))).
        t_state t = Some (t_target t)"
    and f: "\<exists>t. resumed_task (AxiosSettles 0 (Inr 200)) (run [WarmupFires] (main [cfg0, cfg2]))
             = Some t
        \<and> t_target t = 0"
    using s by blast+
  from o have "map t_state (running (run [WarmupFires] (main [cfg0, cfg2]))) =
       map (\<lambda>t. Some (t_target t)) (running (run [WarmupFires] (main [cfg0, cfg2])))"
    by (simp only: map_eq_conv)
  with d r s f show ?thesis
    by blast
qed

end
